theory Spec2Isabelle
  imports Main "HOL-Library.Word"
begin

section \<open>The Kafka broker of the provisioning backend\<close>

text \<open>
  A shallow embedding of package \<open>kafka\<close> (the file with \<open>kafkaBroker\<close>,
  \<open>createSASLMechanism\<close>, \<open>NewKafkaBroker\<close>, \<open>Consume\<close> and \<open>Send\<close>).
  Go strings and byte slices are lists of bytes, Go errors are values of the datatype
  \<open>go_error\<close>, and a function returning \<open>(T, error)\<close> returns \<open>go_error + T\<close>.
  Everything the package calls in the standard library, in \<open>kafka-go\<close> and on the
  network is a field of the record \<open>libs\<close> or an explicit argument.
\<close>

subsection \<open>Errors\<close>

type_synonym byte = "8 word"

text \<open>
  The sentinel errors the package declares or tests for are constructors; \<open>ErrorString\<close>
  is any other error of a library, with its message; \<open>Errorf_w p e s\<close> is the value of
  \<open>fmt.Errorf\<close> whose format is \<open>p\<close>, then the verb \<open>%w\<close> applied to \<open>e\<close>, then
  the formatted rest \<open>s\<close>: it unwraps to \<open>e\<close>.
\<close>

datatype go_error =
    EOF
  | ContextCanceled
  | ContextDeadlineExceeded
  | DifferentTopicErr
  | UnknownSaslMechanismErr
  | ErrorString string
  | Errorf_w string go_error string

fun Error :: "go_error \<Rightarrow> string" where
  "Error EOF = ''EOF''"
| "Error ContextCanceled = ''context canceled''"
| "Error ContextDeadlineExceeded = ''context deadline exceeded''"
| "Error DifferentTopicErr = ''messages in batch have different topics''"
| "Error UnknownSaslMechanismErr = ''unknown SASL mechanism''"
| "Error (ErrorString s) = s"
| "Error (Errorf_w p e s) = p @ Error e @ s"

text \<open>\<open>errors.Is\<close>: compare, then unwrap and compare again, to the end of the chain.\<close>

fun errors_Is :: "go_error \<Rightarrow> go_error \<Rightarrow> bool" where
  "errors_Is (Errorf_w p e s) target =
     (if Errorf_w p e s = target then True else errors_Is e target)"
| "errors_Is err target = (err = target)"

subsection \<open>Configuration and the libraries the broker calls\<close>

text \<open>\<open>config.Kafka\<close>, as far as the package reads it.\<close>

record kafka_config =
  Brokers :: "string list"
  CACert :: string
  SaslMechanism :: string
  Username :: string
  Password :: string

datatype scram_algorithm = SHA256 | SHA512

text \<open>
  A \<open>sasl.Mechanism\<close>: \<open>plain.Mechanism\<close> with its two fields, or the mechanism
  \<open>scram.Mechanism\<close> built for an algorithm from the prepared credentials.
\<close>

datatype sasl_mechanism =
    Plain_Mechanism string string
  | Scram_Mechanism scram_algorithm string string

text \<open>
  The functions of other packages: \<open>filepath.Clean\<close>, \<open>ioutil.ReadFile\<close> on the file
  system of the process, the certificates (as DER byte strings) that
  \<open>x509.CertPool.AppendCertsFromPEM\<close> finds and parses in a PEM text,
  \<open>scram.Mechanism\<close>, the rune mapping \<open>strings.Map(unicode.ToLower, s)\<close> that
  \<open>strings.ToLower\<close> falls back to on a string with a byte outside ASCII, and the
  constant \<open>version.KafkaClientID\<close>.
\<close>

record libs =
  filepath_Clean :: "string \<Rightarrow> string"
  ioutil_ReadFile :: "string \<Rightarrow> go_error + byte list"
  pem_certificates :: "byte list \<Rightarrow> byte list list"
  scram_Mechanism :: "scram_algorithm \<Rightarrow> string \<Rightarrow> string \<Rightarrow> go_error + sasl_mechanism"
  unicode_ToLower :: "string \<Rightarrow> string"
  KafkaClientID :: string

text \<open>
  \<open>strings.ToLower\<close>: a string of ASCII bytes only has its letters \<open>A\<close> to \<open>Z\<close>
  moved to \<open>a\<close> to \<open>z\<close>, byte by byte; any other string is mapped rune by rune.
\<close>

definition ascii_lower :: "char \<Rightarrow> char" where
  "ascii_lower c =
     (if (65::nat) \<le> of_char c \<and> of_char c \<le> (90::nat)
      then char_of (of_char c + (32::nat)) else c)"

definition strings_ToLower :: "libs \<Rightarrow> string \<Rightarrow> string" where
  "strings_ToLower L s =
     (if list_all (\<lambda>c. of_char c < (128::nat)) s then map ascii_lower s
      else unicode_ToLower L s)"

subsection \<open>The SASL mechanism\<close>

definition createSASLMechanism ::
  "libs \<Rightarrow> string \<Rightarrow> string \<Rightarrow> string \<Rightarrow> go_error + sasl_mechanism" where
  "createSASLMechanism L saslMechanismName username password =
     (let name = strings_ToLower L saslMechanismName in
      if name = ''plain'' then Inr (Plain_Mechanism username password)
      else if name = ''scram-sha-512'' then
        (case scram_Mechanism L SHA512 username password of
           Inl err \<Rightarrow> Inl (Errorf_w ''unable to create scram-sha-512 mechanism: '' err [])
         | Inr mechanism \<Rightarrow> Inr mechanism)
      else if name = ''scram-sha-256'' then
        (case scram_Mechanism L SHA256 username password of
           Inl err \<Rightarrow> Inl (Errorf_w ''unable to create scram-sha-256 mechanism: '' err [])
         | Inr mechanism \<Rightarrow> Inr mechanism)
      else Inl (Errorf_w [] UnknownSaslMechanismErr ('': '' @ saslMechanismName)))"

subsection \<open>Constructing the broker\<close>

text \<open>
  \<open>x509.CertPool\<close> is the list of its certificates. \<open>AppendCertsFromPEM\<close> adds the
  certificates found and reports whether there was one.
\<close>

type_synonym cert_pool = "byte list list"

definition NewCertPool :: cert_pool where
  "NewCertPool = []"

definition AppendCertsFromPEM :: "libs \<Rightarrow> cert_pool \<Rightarrow> byte list \<Rightarrow> cert_pool \<times> bool" where
  "AppendCertsFromPEM L pool pemCerts =
     (pool @ pem_certificates L pemCerts, pem_certificates L pemCerts \<noteq> [])"

record tls_Config =
  MinVersion :: "16 word"
  RootCAs :: cert_pool

definition VersionTLS13 :: "16 word" where
  "VersionTLS13 = 0x0304"

text \<open>\<open>time.Second\<close>, in nanoseconds.\<close>

definition Second :: int where
  "Second = 1000000000"

record kafka_Dialer =
  ClientID :: string
  Timeout :: int
  SASLMechanism :: "sasl_mechanism option"
  TLS :: "tls_Config option"

text \<open>The field \<open>Dial\<close> is the method value \<open>dialer.DialFunc\<close>: the dialer it is bound to.\<close>

record kafka_Transport =
  Dial :: kafka_Dialer
  TransportClientID :: string
  TransportTLS :: "tls_Config option"
  SASL :: "sasl_mechanism option"

record kafkaBroker =
  dialer :: kafka_Dialer
  transport :: kafka_Transport

text \<open>The two configuration steps of \<open>NewKafkaBroker\<close>, and the function.\<close>

definition configureTLS :: "libs \<Rightarrow> kafka_config \<Rightarrow> go_error + tls_Config option" where
  "configureTLS L cfg =
     (if CACert cfg \<noteq> [] then
        (let cleanCAPath = filepath_Clean L (CACert cfg) in
         case ioutil_ReadFile L cleanCAPath of
           Inl err \<Rightarrow> Inl (Errorf_w ''unable to read kafka CA cert: '' err [])
         | Inr pemCerts \<Rightarrow>
             (let pool = fst (AppendCertsFromPEM L NewCertPool pemCerts) in
              Inr (Some \<lparr>MinVersion = VersionTLS13, RootCAs = pool\<rparr>)))
      else Inr None)"

definition configureSASL :: "libs \<Rightarrow> kafka_config \<Rightarrow> go_error + sasl_mechanism option" where
  "configureSASL L cfg =
     (if SaslMechanism cfg \<noteq> [] then
        (case createSASLMechanism L (SaslMechanism cfg) (Username cfg) (Password cfg) of
           Inl err \<Rightarrow> Inl (Errorf_w ''kafka SASL error: '' err [])
         | Inr mechanism \<Rightarrow> Inr (Some mechanism))
      else Inr None)"

definition NewKafkaBroker :: "libs \<Rightarrow> kafka_config \<Rightarrow> go_error + kafkaBroker" where
  "NewKafkaBroker L cfg =
     (case configureTLS L cfg of
        Inl err \<Rightarrow> Inl err
      | Inr tlsConfig \<Rightarrow>
          (case configureSASL L cfg of
             Inl err \<Rightarrow> Inl err
           | Inr saslMechanism \<Rightarrow>
               (let d = \<lparr>ClientID = KafkaClientID L, Timeout = 10 * Second,
                         SASLMechanism = saslMechanism, TLS = tlsConfig\<rparr>;
                    t = \<lparr>Dial = d, TransportClientID = KafkaClientID L,
                         TransportTLS = tlsConfig, SASL = saslMechanism\<rparr>
                in Inr \<lparr>dialer = d, transport = t\<rparr>)))"

text \<open>
  The package-level variable \<open>broker\<close> is the state of \<open>InitializeKafkaBroker\<close>;
  \<open>None\<close> is the nil interface value. The function returns the new value of the
  variable and its error result.
\<close>

definition InitializeKafkaBroker ::
  "libs \<Rightarrow> kafka_config \<Rightarrow> kafkaBroker option \<Rightarrow> kafkaBroker option \<times> go_error option" where
  "InitializeKafkaBroker L cfg broker =
     (case NewKafkaBroker L cfg of
        Inl err \<Rightarrow> (None, Some (Errorf_w ''unable to initialize kafka: '' err []))
      | Inr b \<Rightarrow> (Some b, None))"

subsection \<open>Messages\<close>

text \<open>
  \<open>kafka.Message\<close> of \<open>kafka-go\<close>: besides topic, key, value and headers (a
  \<open>protocol.Header\<close> is a string key with a byte value), a message that was read carries
  its partition, offset, high water mark and time.
\<close>

type_synonym header = "string \<times> byte list"

record kafka_Message =
  msgTopic :: string
  msgPartition :: int
  msgOffset :: int
  msgHighWaterMark :: int
  msgKey :: "byte list"
  msgValue :: "byte list"
  msgHeaders :: "header list"
  msgTime :: int

text \<open>The zero value of \<open>kafka.Message\<close>, as \<open>make\<close> fills a new slice with.\<close>

definition zero_Message :: kafka_Message where
  "zero_Message =
     \<lparr>msgTopic = [], msgPartition = 0, msgOffset = 0, msgHighWaterMark = 0,
      msgKey = [], msgValue = [], msgHeaders = [], msgTime = 0\<rparr>"

text \<open>
  Modelled from the spec: the type \<open>GenericMessage\<close> and its two conversions,
  \<open>KafkaMessage\<close> (the spec's \<open>ToWire\<close>) and \<open>NewMessageFromKafka\<close> (the spec's
  \<open>FromWire\<close>), are declared in a file of the package that is not among the sources.
  The spec: a message has a topic, a key, a value and an ordered sequence of headers;
  \<open>ToWire\<close> maps the four fields directly, a key or value of length zero staying
  empty; \<open>FromWire\<close> copies topic, key and value verbatim, along with any headers.
\<close>

record GenericMessage =
  Topic :: string
  Key :: "byte list"
  Value :: "byte list"
  Headers :: "header list"

definition KafkaMessage :: "GenericMessage \<Rightarrow> kafka_Message" where
  "KafkaMessage m =
     zero_Message\<lparr>msgTopic := Topic m, msgKey := Key m, msgValue := Value m,
                  msgHeaders := Headers m\<rparr>"

definition NewMessageFromKafka :: "kafka_Message \<Rightarrow> GenericMessage" where
  "NewMessageFromKafka km =
     \<lparr>Topic = msgTopic km, Key = msgKey km, Value = msgValue km, Headers = msgHeaders km\<rparr>"

subsection \<open>Readers and writers\<close>

definition LastOffset :: int where
  "LastOffset = - 1"

record kafka_Reader =
  ReaderBrokers :: "string list"
  ReaderDialer :: kafka_Dialer
  ReaderTopic :: string
  StartOffset :: int

record kafka_Writer =
  Addr :: "string list"
  WriterTransport :: kafka_Transport

text \<open>
  Both constructors fill a descriptor and open no connection. The two logger fields,
  which route the library's messages to the logger of the context, are left out.
\<close>

definition NewReader :: "kafka_config \<Rightarrow> kafkaBroker \<Rightarrow> string \<Rightarrow> kafka_Reader" where
  "NewReader cfg b topic =
     \<lparr>ReaderBrokers = Brokers cfg, ReaderDialer = dialer b, ReaderTopic = topic,
      StartOffset = LastOffset\<rparr>"

definition NewWriter :: "kafka_config \<Rightarrow> kafkaBroker \<Rightarrow> kafka_Writer" where
  "NewWriter cfg b = \<lparr>Addr = Brokers cfg, WriterTransport = transport b\<rparr>"

subsection \<open>Send\<close>

text \<open>
  What \<open>Send\<close> does to the outside, in order: it makes a writer, calls
  \<open>WriteMessages\<close> on it, closes it.
\<close>

datatype writer_event =
    EvNewWriter kafka_Writer
  | EvWriteMessages "kafka_Message list"
  | EvWriterClose

text \<open>
  A call returns a value or panics. The arguments of \<open>Send\<close> are pointers: \<open>None\<close>
  is the nil pointer, whose field \<open>Topic\<close> cannot be read.
\<close>

datatype 'a go_result = Return 'a | Panic

text \<open>
  The \<open>range\<close> loop of \<open>Send\<close> from index \<open>i\<close> on: it leaves with
  \<open>DifferentTopicErr\<close> at the first message of another topic, and stores the
  translation of every message before that at the message's index.
\<close>

fun Send_range ::
  "string \<Rightarrow> nat \<Rightarrow> GenericMessage option list \<Rightarrow> kafka_Message list \<Rightarrow>
   (go_error + kafka_Message list) go_result" where
  "Send_range commonTopic i [] kMessages = Return (Inr kMessages)"
| "Send_range commonTopic i (None # ms) kMessages = Panic"
| "Send_range commonTopic i (Some m # ms) kMessages =
     (if Topic m \<noteq> commonTopic then Return (Inl DifferentTopicErr)
      else Send_range commonTopic (Suc i) ms (kMessages[i := KafkaMessage m]))"

text \<open>
  \<open>WriteMessages\<close> is the answer of the writer to a batch: \<open>None\<close> when the batch
  was written, the error otherwise. The deferred \<open>Close\<close> runs on every way out
  after the writer was made.
\<close>

definition Send ::
  "kafka_config \<Rightarrow> kafkaBroker \<Rightarrow> (kafka_Message list \<Rightarrow> go_error option) \<Rightarrow>
   GenericMessage option list \<Rightarrow> go_error option go_result \<times> writer_event list" where
  "Send cfg b WriteMessages messages =
     (case messages of
        [] \<Rightarrow> (Return None, [])
      | None # _ \<Rightarrow> (Panic, [])
      | Some m0 # _ \<Rightarrow>
          (let commonTopic = Topic m0;
               w = NewWriter cfg b;
               kMessages = replicate (length messages) zero_Message
           in case Send_range commonTopic 0 messages kMessages of
                Panic \<Rightarrow> (Panic, [EvNewWriter w, EvWriterClose])
              | Return (Inl err) \<Rightarrow> (Return (Some err), [EvNewWriter w, EvWriterClose])
              | Return (Inr kMessages') \<Rightarrow>
                  (case WriteMessages kMessages' of
                     Some err \<Rightarrow>
                       (Return (Some (Errorf_w ''cannot send kafka messages(s): '' err [])),
                        [EvNewWriter w, EvWriteMessages kMessages', EvWriterClose])
                   | None \<Rightarrow>
                       (Return None,
                        [EvNewWriter w, EvWriteMessages kMessages', EvWriterClose]))))"

subsection \<open>Consume\<close>

text \<open>
  What \<open>Consume\<close> does to the outside, in order: it makes a reader, calls
  \<open>ReadMessage\<close>, logs a warning with an error and its text or a trace line with the
  payload and the key, calls the handler, closes the reader.
\<close>

datatype consume_event =
    EvNewReader kafka_Reader
  | EvReadMessage nat
  | EvWarn go_error string
  | EvTrace "byte list" "byte list"
  | EvHandler GenericMessage
  | EvReaderClose

text \<open>
  The reader is given by what its calls of \<open>ReadMessage\<close> return: \<open>reads i\<close> is the
  result of call number \<open>i\<close>, \<open>Inl\<close> an error and \<open>Inr\<close> a message. The handler
  changes a state \<open>'w\<close> of the application. The loop has no bound: the value \<open>None\<close>
  says that it never leaves, \<open>Some\<close> gives the events and the state at the
  \<open>break\<close>.
\<close>

partial_function (option) Consume_loop ::
  "(GenericMessage \<Rightarrow> 'w \<Rightarrow> 'w) \<Rightarrow> (nat \<Rightarrow> go_error + kafka_Message) \<Rightarrow> nat \<Rightarrow>
   consume_event list \<Rightarrow> 'w \<Rightarrow> (consume_event list \<times> 'w) option" where
  "Consume_loop handler reads i evs w =
     (case reads i of
        Inl err \<Rightarrow>
          (if errors_Is err EOF then Some (evs @ [EvReadMessage i], w)
           else Consume_loop handler reads (Suc i)
                  (evs @ [EvReadMessage i,
                          EvWarn err (''Error when reading message: '' @ Error err)]) w)
      | Inr msg \<Rightarrow>
          Consume_loop handler reads (Suc i)
            (evs @ [EvReadMessage i, EvTrace (msgValue msg) (msgKey msg),
                    EvHandler (NewMessageFromKafka msg)])
            (handler (NewMessageFromKafka msg) w))"

text \<open>\<open>Consume\<close>: the reader, the loop, and the deferred \<open>Close\<close> when the loop is left.\<close>

definition Consume ::
  "kafka_config \<Rightarrow> kafkaBroker \<Rightarrow> string \<Rightarrow> (GenericMessage \<Rightarrow> 'w \<Rightarrow> 'w) \<Rightarrow>
   (nat \<Rightarrow> go_error + kafka_Message) \<Rightarrow> 'w \<Rightarrow> (consume_event list \<times> 'w) option" where
  "Consume cfg b topic handler reads w =
     (let r = NewReader cfg b topic in
      case Consume_loop handler reads 0 [EvNewReader r] w of
        None \<Rightarrow> None
      | Some (evs, w') \<Rightarrow> Some (evs @ [EvReaderClose], w'))"

subsection \<open>Reading the events of a run\<close>

text \<open>The handler calls among the events of \<open>Consume\<close>, and how often the reader was closed.\<close>

fun handled :: "consume_event list \<Rightarrow> GenericMessage list" where
  "handled [] = []"
| "handled (EvHandler m # evs) = m # handled evs"
| "handled (ev # evs) = handled evs"

fun warned :: "consume_event list \<Rightarrow> go_error list" where
  "warned [] = []"
| "warned (EvWarn err text # evs) = err # warned evs"
| "warned (ev # evs) = warned evs"

definition closes :: "consume_event list \<Rightarrow> nat" where
  "closes evs = length (filter (\<lambda>ev. ev = EvReaderClose) evs)"

text \<open>The publish calls among the events of \<open>Send\<close>.\<close>

fun published :: "writer_event list \<Rightarrow> kafka_Message list list" where
  "published [] = []"
| "published (EvWriteMessages kms # evs) = kms # published evs"
| "published (ev # evs) = published evs"

text \<open>A read result that is an error with \<open>io.EOF\<close> in its chain.\<close>

definition is_EOF :: "go_error + kafka_Message \<Rightarrow> bool" where
  "is_EOF r = (case r of Inl err \<Rightarrow> errors_Is err EOF | Inr msg \<Rightarrow> False)"

text \<open>
  What the description of the loop asks of the reads \<open>i\<close> to \<open>n - 1\<close>, none of them
  the end of the stream: a failed read is followed by its warning, a successful one by
  the trace line and the handler call, and then comes the next read. \<open>delivered\<close> are
  the messages of the successful reads, in the order read, and \<open>failures\<close> the errors
  of the others.
\<close>

fun read_events :: "nat \<Rightarrow> go_error + kafka_Message \<Rightarrow> consume_event list" where
  "read_events i (Inl err) =
     [EvReadMessage i, EvWarn err (''Error when reading message: '' @ Error err)]"
| "read_events i (Inr msg) =
     [EvReadMessage i, EvTrace (msgValue msg) (msgKey msg), EvHandler (NewMessageFromKafka msg)]"

definition loop_events :: "(nat \<Rightarrow> go_error + kafka_Message) \<Rightarrow> nat \<Rightarrow> nat \<Rightarrow> consume_event list" where
  "loop_events reads i n = concat (map (\<lambda>j. read_events j (reads j)) [i..<n])"

definition delivered :: "(nat \<Rightarrow> go_error + kafka_Message) \<Rightarrow> nat \<Rightarrow> nat \<Rightarrow> GenericMessage list" where
  "delivered reads i n =
     concat (map (\<lambda>j. case reads j of Inl err \<Rightarrow> [] | Inr msg \<Rightarrow> [NewMessageFromKafka msg])
               [i..<n])"

definition failures :: "(nat \<Rightarrow> go_error + kafka_Message) \<Rightarrow> nat \<Rightarrow> nat \<Rightarrow> go_error list" where
  "failures reads i n =
     concat (map (\<lambda>j. case reads j of Inl err \<Rightarrow> [err] | Inr msg \<Rightarrow> []) [i..<n])"

subsection \<open>An example deployment\<close>

text \<open>
  A file system with a CA bundle holding one certificate and a file that is no PEM
  text, a \<open>scram\<close> library that refuses credentials with an ASCII control character
  (as the preparation of the credentials does), and a topic with two messages.
\<close>

definition example_libs :: libs where
  "example_libs =
     \<lparr>filepath_Clean = (\<lambda>p. p),
      ioutil_ReadFile = (\<lambda>p.
        if p = ''/etc/kafka/ca.pem'' then Inr [0x2D, 0x2D, 0x2D, 0x2D, 0x2D, 0x42]
        else if p = ''/etc/kafka/notes.txt'' then Inr [0x68, 0x65, 0x6C, 0x6C, 0x6F]
        else Inl (ErrorString ''open: no such file or directory'')),
      pem_certificates = (\<lambda>pem.
        if pem = [0x2D, 0x2D, 0x2D, 0x2D, 0x2D, 0x42] then [[0x30, 0x82]] else []),
      scram_Mechanism = (\<lambda>algo username password.
        if list_all (\<lambda>c. (32::nat) \<le> of_char c \<and> of_char c \<noteq> (127::nat)) (username @ password)
        then Inr (Scram_Mechanism algo username password)
        else Inl (ErrorString ''prohibited character'')),
      unicode_ToLower = (\<lambda>s. s),
      KafkaClientID = ''provisioning-backend''\<rparr>"

definition example_config :: kafka_config where
  "example_config =
     \<lparr>Brokers = [''kafka:9092''], CACert = [], SaslMechanism = [], Username = ''user'',
      Password = ''secret''\<rparr>"

definition example_broker :: kafkaBroker where
  "example_broker =
     (let d = \<lparr>ClientID = ''provisioning-backend'', Timeout = 10 * Second,
               SASLMechanism = None, TLS = None\<rparr>
      in \<lparr>dialer = d,
          transport = \<lparr>Dial = d, TransportClientID = ''provisioning-backend'',
                       TransportTLS = None, SASL = None\<rparr>\<rparr>)"

definition order1 :: GenericMessage where
  "order1 = \<lparr>Topic = ''orders'', Key = [1], Value = [0x61], Headers = [(''id'', [7])]\<rparr>"

definition order2 :: GenericMessage where
  "order2 = \<lparr>Topic = ''orders'', Key = [], Value = [0x62, 0], Headers = []\<rparr>"

definition refund :: GenericMessage where
  "refund = \<lparr>Topic = ''refunds'', Key = [2], Value = [0x63], Headers = []\<rparr>"

text \<open>
  A reader that returns a message, a timeout, a second message, and then the end of
  the stream for ever; a reader that returns a message and then, its context being
  cancelled, the error of the context for ever.
\<close>

definition example_reads :: "nat \<Rightarrow> go_error + kafka_Message" where
  "example_reads i =
     (if i = 0 then Inr (KafkaMessage order1\<lparr>msgOffset := 41\<rparr>)
      else if i = 1 then Inl (ErrorString ''i/o timeout'')
      else if i = 2 then Inr (KafkaMessage order2\<lparr>msgOffset := 42\<rparr>)
      else Inl EOF)"

definition cancelled_reads :: "nat \<Rightarrow> go_error + kafka_Message" where
  "cancelled_reads i =
     (if i = 0 then Inr (KafkaMessage order1\<lparr>msgOffset := 41\<rparr>) else Inl ContextCanceled)"

text \<open>A handler that counts the bytes of the values it is given.\<close>

definition count_bytes :: "GenericMessage \<Rightarrow> nat \<Rightarrow> nat" where
  "count_bytes m n = n + length (Value m)"

section \<open>Properties\<close>

subsection \<open>Constructing the broker\<close>

text \<open>
  A CA file that cannot be read stops the construction: the error of \<open>ReadFile\<close>
  comes back wrapped, and there is no broker.
\<close>

lemma NewKafkaBroker_unreadable_CA:
  assumes "CACert cfg \<noteq> []"
    and "ioutil_ReadFile L (filepath_Clean L (CACert cfg)) = Inl err"
  shows "NewKafkaBroker L cfg = Inl (Errorf_w ''unable to read kafka CA cert: '' err [])"
  using assms by (simp add: NewKafkaBroker_def configureTLS_def)

text \<open>
  C1 (the code departs from the claim). The claim: with a CA path configured, any
  failure to read or to parse the file makes \<open>NewKafkaBroker\<close> return an error, and a
  readable file that holds no valid PEM certificate never gives a broker with an empty
  trust pool. The code tests the error of \<open>ReadFile\<close> only and drops the result of
  \<open>AppendCertsFromPEM\<close>: when the file was read, no certificate was found in it and
  no SASL mechanism is configured, \<open>AppendCertsFromPEM\<close> reports \<open>False\<close> and
  \<open>NewKafkaBroker\<close> still returns a broker, whose dialer and transport carry a TLS
  configuration with an empty pool of root certificates.
\<close>

theorem NewKafkaBroker_unparsed_CA_accepted:
  assumes "CACert cfg \<noteq> []"
    and "ioutil_ReadFile L (filepath_Clean L (CACert cfg)) = Inr pemCerts"
    and "pem_certificates L pemCerts = []"
    and "SaslMechanism cfg = []"
  shows "snd (AppendCertsFromPEM L NewCertPool pemCerts) = False
         \<and> (\<exists>b. NewKafkaBroker L cfg = Inr b
                \<and> TLS (dialer b) = Some \<lparr>MinVersion = VersionTLS13, RootCAs = []\<rparr>
                \<and> TransportTLS (transport b) = Some \<lparr>MinVersion = VersionTLS13, RootCAs = []\<rparr>)"
  using assms
  by (simp add: NewKafkaBroker_def configureTLS_def configureSASL_def AppendCertsFromPEM_def
      NewCertPool_def Let_def)

text \<open>
  The example deployment with the CA path set to the text file: the file is read,
  nothing in it is a certificate, and the broker is built with the empty pool.
\<close>

theorem NewKafkaBroker_unparsed_CA_accepted_witness:
  "CACert (example_config\<lparr>CACert := ''/etc/kafka/notes.txt''\<rparr>) \<noteq> []
   \<and> ioutil_ReadFile example_libs
        (filepath_Clean example_libs (CACert (example_config\<lparr>CACert := ''/etc/kafka/notes.txt''\<rparr>))) =
       Inr [0x68, 0x65, 0x6C, 0x6C, 0x6F]
   \<and> pem_certificates example_libs [0x68, 0x65, 0x6C, 0x6C, 0x6F] = []
   \<and> SaslMechanism (example_config\<lparr>CACert := ''/etc/kafka/notes.txt''\<rparr>) = []
   \<and> (\<exists>b. NewKafkaBroker example_libs (example_config\<lparr>CACert := ''/etc/kafka/notes.txt''\<rparr>) =
            Inr b
          \<and> TLS (dialer b) = Some \<lparr>MinVersion = VersionTLS13, RootCAs = []\<rparr>
          \<and> TransportTLS (transport b) = Some \<lparr>MinVersion = VersionTLS13, RootCAs = []\<rparr>)"
proof -
  let ?cfg = "example_config\<lparr>CACert := ''/etc/kafka/notes.txt''\<rparr>"
  have h1: "CACert ?cfg \<noteq> []" by simp
  have h2: "ioutil_ReadFile example_libs (filepath_Clean example_libs (CACert ?cfg)) =
              Inr [0x68, 0x65, 0x6C, 0x6C, 0x6F]"
    by (simp add: example_libs_def)
  have h3: "pem_certificates example_libs [0x68, 0x65, 0x6C, 0x6C, 0x6F] = []"
    by (simp add: example_libs_def)
  have h4: "SaslMechanism ?cfg = []" by (simp add: example_config_def)
  from NewKafkaBroker_unparsed_CA_accepted [OF h1 h2 h3 h4]
  have "\<exists>b. NewKafkaBroker example_libs ?cfg = Inr b
          \<and> TLS (dialer b) = Some \<lparr>MinVersion = VersionTLS13, RootCAs = []\<rparr>
          \<and> TransportTLS (transport b) = Some \<lparr>MinVersion = VersionTLS13, RootCAs = []\<rparr>"
    by (rule conjunct2)
  with h1 h2 h3 h4 show ?thesis by (intro conjI)
qed

text \<open>
  C4, as the claim has it, fails: the name \<open>SCRAM-SHA-256\<close> is recognised, and with a
  password that \<open>scram.Mechanism\<close> refuses the construction of the mechanism returns
  an error. And with the unknown name \<open>oauthbearer\<close> and a CA file that does not
  exist, the construction of the broker fails in the TLS step, which comes first: its
  error is the one of the file, with no \<open>UnknownSaslMechanismErr\<close> in its chain.
\<close>

theorem createSASLMechanism_scram_counterexample:
  "strings_ToLower example_libs ''SCRAM-SHA-256'' = ''scram-sha-256''
   \<and> createSASLMechanism example_libs ''SCRAM-SHA-256'' ''user'' [CHR ''p'', CHR 0x07] =
       Inl (Errorf_w ''unable to create scram-sha-256 mechanism: ''
              (ErrorString ''prohibited character'') [])
   \<and> NewKafkaBroker example_libs
         (example_config\<lparr>CACert := ''/etc/kafka/missing.pem'', SaslMechanism := ''oauthbearer''\<rparr>) =
       Inl (Errorf_w ''unable to read kafka CA cert: ''
              (ErrorString ''open: no such file or directory'') [])
   \<and> \<not> errors_Is (Errorf_w ''unable to read kafka CA cert: ''
                      (ErrorString ''open: no such file or directory'') [])
           UnknownSaslMechanismErr"
  by (simp add: createSASLMechanism_def strings_ToLower_def ascii_lower_def example_libs_def
      char_of_def bit_0 NewKafkaBroker_def configureTLS_def)

text \<open>
  C4 (amended). For every SASL mechanism name: if its lowercase form is \<open>plain\<close>,
  the construction of the mechanism succeeds; if it is \<open>scram-sha-512\<close> or
  \<open>scram-sha-256\<close>, the construction succeeds with the mechanism of
  \<open>scram.Mechanism\<close> when that accepts the credentials, and returns its error,
  wrapped, when it does not; for every other name \<open>createSASLMechanism\<close> returns an
  error that wraps \<open>UnknownSaslMechanismErr\<close> and whose message is
  \<open>unknown SASL mechanism: \<close> followed by the name as given, and when that name is the
  non-empty configured one \<open>NewKafkaBroker\<close> returns an error and no broker: this
  error, wrapped once more, whenever the TLS step before it did not fail.
\<close>

theorem createSASLMechanism_by_name:
  "(strings_ToLower L name = ''plain'' \<longrightarrow>
      createSASLMechanism L name username password = Inr (Plain_Mechanism username password))
   \<and> (strings_ToLower L name = ''scram-sha-512'' \<longrightarrow>
        (\<forall>m. scram_Mechanism L SHA512 username password = Inr m \<longrightarrow>
             createSASLMechanism L name username password = Inr m)
      \<and> (\<forall>err. scram_Mechanism L SHA512 username password = Inl err \<longrightarrow>
             createSASLMechanism L name username password =
               Inl (Errorf_w ''unable to create scram-sha-512 mechanism: '' err [])))
   \<and> (strings_ToLower L name = ''scram-sha-256'' \<longrightarrow>
        (\<forall>m. scram_Mechanism L SHA256 username password = Inr m \<longrightarrow>
             createSASLMechanism L name username password = Inr m)
      \<and> (\<forall>err. scram_Mechanism L SHA256 username password = Inl err \<longrightarrow>
             createSASLMechanism L name username password =
               Inl (Errorf_w ''unable to create scram-sha-256 mechanism: '' err [])))
   \<and> (strings_ToLower L name \<noteq> ''plain'' \<and> strings_ToLower L name \<noteq> ''scram-sha-512''
        \<and> strings_ToLower L name \<noteq> ''scram-sha-256'' \<longrightarrow>
        createSASLMechanism L name username password =
          Inl (Errorf_w [] UnknownSaslMechanismErr ('': '' @ name))
      \<and> Error (Errorf_w [] UnknownSaslMechanismErr ('': '' @ name)) =
          ''unknown SASL mechanism: '' @ name
      \<and> errors_Is (Errorf_w [] UnknownSaslMechanismErr ('': '' @ name)) UnknownSaslMechanismErr
      \<and> (name \<noteq> [] \<and> SaslMechanism cfg = name \<and> Username cfg = username
            \<and> Password cfg = password \<longrightarrow>
          (\<exists>err. NewKafkaBroker L cfg = Inl err)
          \<and> (\<forall>tlsConfig. configureTLS L cfg = Inr tlsConfig \<longrightarrow>
                NewKafkaBroker L cfg =
                  Inl (Errorf_w ''kafka SASL error: ''
                         (Errorf_w [] UnknownSaslMechanismErr ('': '' @ name)) []))))"
proof (intro conjI impI allI)
  assume "strings_ToLower L name \<noteq> ''plain'' \<and> strings_ToLower L name \<noteq> ''scram-sha-512''
        \<and> strings_ToLower L name \<noteq> ''scram-sha-256''"
  then have unknown: "createSASLMechanism L name username password =
          Inl (Errorf_w [] UnknownSaslMechanismErr ('': '' @ name))"
    by (simp add: createSASLMechanism_def)
  then show "createSASLMechanism L name username password =
          Inl (Errorf_w [] UnknownSaslMechanismErr ('': '' @ name))" .
  assume "name \<noteq> [] \<and> SaslMechanism cfg = name \<and> Username cfg = username
            \<and> Password cfg = password"
  then have sasl: "configureSASL L cfg =
       Inl (Errorf_w ''kafka SASL error: ''
              (Errorf_w [] UnknownSaslMechanismErr ('': '' @ name)) [])"
    using unknown by (auto simp: configureSASL_def)
  show "\<exists>err. NewKafkaBroker L cfg = Inl err"
    by (cases "configureTLS L cfg") (simp_all add: NewKafkaBroker_def sasl)
  fix tlsConfig
  assume "configureTLS L cfg = Inr tlsConfig"
  then show "NewKafkaBroker L cfg =
                  Inl (Errorf_w ''kafka SASL error: ''
                         (Errorf_w [] UnknownSaslMechanismErr ('': '' @ name)) [])"
    by (simp add: NewKafkaBroker_def sasl)
qed (simp_all add: createSASLMechanism_def)

text \<open>
  One name for each case, in the example deployment: \<open>PLAIN\<close>, \<open>Scram-SHA-512\<close>
  with good credentials, \<open>scram-sha-256\<close> with a refused password, and the unknown
  name \<open>oauthbearer\<close>, with which no broker is built.
\<close>

theorem createSASLMechanism_by_name_witness:
  "createSASLMechanism example_libs ''PLAIN'' ''user'' ''secret'' =
     Inr (Plain_Mechanism ''user'' ''secret'')
   \<and> createSASLMechanism example_libs ''Scram-SHA-512'' ''user'' ''secret'' =
       Inr (Scram_Mechanism SHA512 ''user'' ''secret'')
   \<and> createSASLMechanism example_libs ''scram-sha-256'' ''user'' [CHR ''p'', CHR 0x07] =
       Inl (Errorf_w ''unable to create scram-sha-256 mechanism: ''
              (ErrorString ''prohibited character'') [])
   \<and> createSASLMechanism example_libs ''oauthbearer'' ''user'' ''secret'' =
       Inl (Errorf_w [] UnknownSaslMechanismErr '': oauthbearer'')
   \<and> Error (Errorf_w [] UnknownSaslMechanismErr '': oauthbearer'') =
       ''unknown SASL mechanism: oauthbearer''
   \<and> NewKafkaBroker example_libs (example_config\<lparr>SaslMechanism := ''oauthbearer''\<rparr>) =
       Inl (Errorf_w ''kafka SASL error: ''
              (Errorf_w [] UnknownSaslMechanismErr '': oauthbearer'') [])"
proof -
  have lower:
    "strings_ToLower example_libs ''PLAIN'' = ''plain''"
    "strings_ToLower example_libs ''Scram-SHA-512'' = ''scram-sha-512''"
    "strings_ToLower example_libs ''scram-sha-256'' = ''scram-sha-256''"
    "strings_ToLower example_libs ''oauthbearer'' = ''oauthbearer''"
    by (simp_all add: strings_ToLower_def ascii_lower_def char_of_def bit_0)
  have scram:
    "scram_Mechanism example_libs SHA512 ''user'' ''secret'' =
       Inr (Scram_Mechanism SHA512 ''user'' ''secret'')"
    "scram_Mechanism example_libs SHA256 ''user'' [CHR ''p'', CHR 0x07] =
       Inl (ErrorString ''prohibited character'')"
    by (simp_all add: example_libs_def)
  let ?cfg = "example_config\<lparr>SaslMechanism := ''oauthbearer''\<rparr>"
  have cfg: "SaslMechanism ?cfg = ''oauthbearer''" "Username ?cfg = ''user''"
    "Password ?cfg = ''secret''" "configureTLS example_libs ?cfg = Inr None"
    by (simp_all add: example_config_def configureTLS_def)
  have "createSASLMechanism example_libs ''PLAIN'' ''user'' ''secret'' =
     Inr (Plain_Mechanism ''user'' ''secret'')"
    using createSASLMechanism_by_name [of example_libs "''PLAIN''" "''user''" "''secret''"]
    by (simp add: lower)
  moreover have "createSASLMechanism example_libs ''Scram-SHA-512'' ''user'' ''secret'' =
       Inr (Scram_Mechanism SHA512 ''user'' ''secret'')"
    using createSASLMechanism_by_name [of example_libs "''Scram-SHA-512''" "''user''" "''secret''"]
    by (simp add: lower scram)
  moreover have "createSASLMechanism example_libs ''scram-sha-256'' ''user'' [CHR ''p'', CHR 0x07] =
       Inl (Errorf_w ''unable to create scram-sha-256 mechanism: ''
              (ErrorString ''prohibited character'') [])"
    using createSASLMechanism_by_name
      [of example_libs "''scram-sha-256''" "''user''" "[CHR ''p'', CHR 0x07]"]
    by (simp add: lower scram)
  moreover have "createSASLMechanism example_libs ''oauthbearer'' ''user'' ''secret'' =
       Inl (Errorf_w [] UnknownSaslMechanismErr '': oauthbearer'')
     \<and> Error (Errorf_w [] UnknownSaslMechanismErr '': oauthbearer'') =
       ''unknown SASL mechanism: oauthbearer''
     \<and> NewKafkaBroker example_libs ?cfg =
       Inl (Errorf_w ''kafka SASL error: ''
              (Errorf_w [] UnknownSaslMechanismErr '': oauthbearer'') [])"
    using createSASLMechanism_by_name
      [of example_libs "''oauthbearer''" "''user''" "''secret''" ?cfg]
    by (simp add: lower cfg)
  ultimately show ?thesis by blast
qed

text \<open>
  C9. When \<open>NewKafkaBroker\<close> returns an error, \<open>InitializeKafkaBroker\<close> has assigned
  the nil broker it returned to the package-level variable before it returns the wrapped
  error: whatever broker the variable held before is gone.
\<close>

theorem InitializeKafkaBroker_failure:
  assumes "NewKafkaBroker L cfg = Inl err"
  shows "InitializeKafkaBroker L cfg old =
           (None, Some (Errorf_w ''unable to initialize kafka: '' err []))"
  using assms by (simp add: InitializeKafkaBroker_def)

text \<open>
  The variable holds the example broker, and the configuration now names a CA file that
  does not exist.
\<close>

theorem InitializeKafkaBroker_failure_witness:
  "NewKafkaBroker example_libs (example_config\<lparr>CACert := ''/etc/kafka/missing.pem''\<rparr>) =
     Inl (Errorf_w ''unable to read kafka CA cert: ''
            (ErrorString ''open: no such file or directory'') [])
   \<and> InitializeKafkaBroker example_libs (example_config\<lparr>CACert := ''/etc/kafka/missing.pem''\<rparr>)
       (Some example_broker) =
       (None, Some (Errorf_w ''unable to initialize kafka: ''
                      (Errorf_w ''unable to read kafka CA cert: ''
                         (ErrorString ''open: no such file or directory'') []) []))"
proof -
  let ?cfg = "example_config\<lparr>CACert := ''/etc/kafka/missing.pem''\<rparr>"
  have h: "NewKafkaBroker example_libs ?cfg =
     Inl (Errorf_w ''unable to read kafka CA cert: ''
            (ErrorString ''open: no such file or directory'') [])"
    by (intro NewKafkaBroker_unreadable_CA) (simp_all add: example_libs_def)
  show ?thesis
    using h InitializeKafkaBroker_failure [OF h, of "Some example_broker"] by simp
qed

subsection \<open>The message conversions\<close>

text \<open>
  C5. Decoding the encoding of a message is the identity: for all byte sequences \<open>k\<close>
  and \<open>v\<close>, the empty ones too, and all header lists \<open>h\<close>, the message with topic
  \<open>t\<close>, key \<open>k\<close>, value \<open>v\<close> and headers \<open>h\<close> comes back from
  \<open>NewMessageFromKafka\<close> after \<open>KafkaMessage\<close> as it was; and so does every message.
\<close>

theorem codec_roundtrip:
  "NewMessageFromKafka (KafkaMessage \<lparr>Topic = ''t'', Key = k, Value = v, Headers = h\<rparr>) =
     \<lparr>Topic = ''t'', Key = k, Value = v, Headers = h\<rparr>
   \<and> NewMessageFromKafka (KafkaMessage m) = m"
  by (simp add: NewMessageFromKafka_def KafkaMessage_def zero_Message_def)

subsection \<open>Send\<close>

text \<open>The loop over a batch of messages, none of them nil.\<close>

lemma Send_range_mismatch:
  "\<exists>m\<in>set ms. Topic m \<noteq> t \<Longrightarrow>
   Send_range t i (map Some ms) km = Return (Inl DifferentTopicErr)"
  by (induction ms arbitrary: i km) auto

lemma Send_range_same:
  "\<forall>m\<in>set ms. Topic m = t \<Longrightarrow> i + length ms \<le> length km \<Longrightarrow>
   Send_range t i (map Some ms) km =
     Return (Inr (take i km @ map KafkaMessage ms @ drop (i + length ms) km))"
proof (induction ms arbitrary: i km)
  case Nil
  then show ?case by simp
next
  case (Cons m ms)
  have i: "i < length km" using Cons.prems by simp
  have "Send_range t i (map Some (m # ms)) km =
        Send_range t (Suc i) (map Some ms) (km[i := KafkaMessage m])"
    using Cons.prems by simp
  also have "\<dots> = Return (Inr (take (Suc i) (km[i := KafkaMessage m]) @ map KafkaMessage ms @
                 drop (Suc i + length ms) (km[i := KafkaMessage m])))"
    using Cons.prems by (intro Cons.IH) auto
  also have "take (Suc i) (km[i := KafkaMessage m]) = take i km @ [KafkaMessage m]"
    using i by (simp add: take_Suc_conv_app_nth)
  also have "drop (Suc i + length ms) (km[i := KafkaMessage m]) = drop (i + length (m # ms)) km"
    by simp
  finally show ?case by simp
qed

lemma Send_range_whole:
  assumes "\<forall>m\<in>set ms. Topic m = t"
  shows "Send_range t 0 (map Some ms) (replicate (length ms) zero_Message) =
           Return (Inr (map KafkaMessage ms))"
  using Send_range_same [OF assms, of 0 "replicate (length ms) zero_Message"] by simp

text \<open>
  C10. For the empty batch \<open>Send\<close> returns success, with no writer made and no call to
  the transport: the run has no event at all.
\<close>

theorem Send_empty:
  "Send cfg b WriteMessages [] = (Return None, [])"
  by (simp add: Send_def)

text \<open>
  C3. For every non-empty batch in which the topic of some message differs from the topic
  of the first, \<open>Send\<close> returns \<open>DifferentTopicErr\<close>; the writer was made and closed,
  \<open>WriteMessages\<close> was not called, and so nothing of the batch was sent, whatever the
  transport would have answered.
\<close>

theorem Send_different_topics:
  assumes "ms \<noteq> []" and "\<exists>m\<in>set ms. Topic m \<noteq> Topic (hd ms)"
  shows "Send cfg b WriteMessages (map Some ms) =
           (Return (Some DifferentTopicErr), [EvNewWriter (NewWriter cfg b), EvWriterClose])
         \<and> published (snd (Send cfg b WriteMessages (map Some ms))) = []"
proof -
  obtain m0 rest where ms: "ms = m0 # rest" using assms(1) by (cases ms) auto
  have "Send_range (Topic m0) 0 (map Some ms) (replicate (length (map Some ms)) zero_Message) =
          Return (Inl DifferentTopicErr)"
    using assms(2) ms by (intro Send_range_mismatch) simp
  then have "Send cfg b WriteMessages (map Some ms) =
           (Return (Some DifferentTopicErr), [EvNewWriter (NewWriter cfg b), EvWriterClose])"
    by (simp add: Send_def ms)
  then show ?thesis by simp
qed

text \<open>An order and a refund in one batch.\<close>

theorem Send_different_topics_witness:
  "[order1, refund] \<noteq> [] \<and> (\<exists>m\<in>set [order1, refund]. Topic m \<noteq> Topic (hd [order1, refund]))
   \<and> Send example_config example_broker (\<lambda>kms. None) [Some order1, Some refund] =
       (Return (Some DifferentTopicErr),
        [EvNewWriter (NewWriter example_config example_broker), EvWriterClose])"
proof -
  have h1: "[order1, refund] \<noteq> []" by simp
  have h2: "\<exists>m\<in>set [order1, refund]. Topic m \<noteq> Topic (hd [order1, refund])"
    by (simp add: order1_def refund_def)
  show ?thesis
    using h1 h2 Send_different_topics [OF h1 h2, of example_config example_broker "\<lambda>kms. None"]
    by simp
qed

text \<open>
  C7. For every non-empty batch whose messages all have the topic of the first,
  \<open>Send\<close> makes exactly one call of \<open>WriteMessages\<close>, with one wire message for each
  message of the batch, in the order of the batch, whose topic, key, value and headers
  are those of the message; it returns success when the call succeeds and the error of
  the call, wrapped with \<open>cannot send kafka messages(s): \<close>, when it fails, and there is
  no second call.
\<close>

theorem Send_same_topic:
  assumes "ms \<noteq> []" and "\<forall>m\<in>set ms. Topic m = Topic (hd ms)"
  shows "Send cfg b WriteMessages (map Some ms) =
           (Return (case WriteMessages (map KafkaMessage ms) of
                      None \<Rightarrow> None
                    | Some err \<Rightarrow> Some (Errorf_w ''cannot send kafka messages(s): '' err [])),
            [EvNewWriter (NewWriter cfg b), EvWriteMessages (map KafkaMessage ms), EvWriterClose])
         \<and> published (snd (Send cfg b WriteMessages (map Some ms))) = [map KafkaMessage ms]
         \<and> length (map KafkaMessage ms) = length ms
         \<and> map msgTopic (map KafkaMessage ms) = map Topic ms
         \<and> map msgKey (map KafkaMessage ms) = map Key ms
         \<and> map msgValue (map KafkaMessage ms) = map Value ms
         \<and> map msgHeaders (map KafkaMessage ms) = map Headers ms"
proof -
  obtain m0 rest where ms: "ms = m0 # rest" using assms(1) by (cases ms) auto
  have "\<forall>m\<in>set ms. Topic m = Topic m0" using assms(2) ms by simp
  then have "Send_range (Topic m0) 0 (map Some ms) (replicate (length ms) zero_Message) =
          Return (Inr (map KafkaMessage ms))"
    by (rule Send_range_whole)
  then have run: "Send cfg b WriteMessages (map Some ms) =
           (Return (case WriteMessages (map KafkaMessage ms) of
                      None \<Rightarrow> None
                    | Some err \<Rightarrow> Some (Errorf_w ''cannot send kafka messages(s): '' err [])),
            [EvNewWriter (NewWriter cfg b), EvWriteMessages (map KafkaMessage ms), EvWriterClose])"
    by (simp add: Send_def ms split: option.splits)
  have fields: "msgTopic (KafkaMessage m) = Topic m" "msgKey (KafkaMessage m) = Key m"
    "msgValue (KafkaMessage m) = Value m" "msgHeaders (KafkaMessage m) = Headers m" for m
    by (simp_all add: KafkaMessage_def zero_Message_def)
  show ?thesis
    unfolding run by (simp add: fields comp_def)
qed

text \<open>Two orders in one batch, once with a transport that accepts and once with one that fails.\<close>

theorem Send_same_topic_witness:
  "Topic order2 = Topic order1
   \<and> Send example_config example_broker (\<lambda>kms. None) [Some order1, Some order2] =
       (Return None,
        [EvNewWriter (NewWriter example_config example_broker),
         EvWriteMessages [KafkaMessage order1, KafkaMessage order2], EvWriterClose])
   \<and> Send example_config example_broker (\<lambda>kms. Some (ErrorString ''connection refused''))
         [Some order1, Some order2] =
       (Return (Some (Errorf_w ''cannot send kafka messages(s): ''
                        (ErrorString ''connection refused'') [])),
        [EvNewWriter (NewWriter example_config example_broker),
         EvWriteMessages [KafkaMessage order1, KafkaMessage order2], EvWriterClose])
   \<and> map msgKey [KafkaMessage order1, KafkaMessage order2] = [[1], []]"
proof -
  have h1: "[order1, order2] \<noteq> []" by simp
  have h2: "\<forall>m\<in>set [order1, order2]. Topic m = Topic (hd [order1, order2])"
    by (simp add: order1_def order2_def)
  show ?thesis
    using h1 h2
      Send_same_topic [OF h1 h2, of example_config example_broker "\<lambda>kms. None"]
      Send_same_topic [OF h1 h2, of example_config example_broker
        "\<lambda>kms. Some (ErrorString ''connection refused'')"]
    by (simp add: order1_def order2_def)
qed

subsection \<open>Consume\<close>

text \<open>Unfolding the expected events, messages and errors by one read.\<close>

lemma loop_events_step:
  "i < n \<Longrightarrow> loop_events reads i n = read_events i (reads i) @ loop_events reads (Suc i) n"
  by (simp add: loop_events_def upt_conv_Cons)

lemma delivered_step:
  "i < n \<Longrightarrow> delivered reads i n =
     (case reads i of Inl err \<Rightarrow> [] | Inr msg \<Rightarrow> [NewMessageFromKafka msg]) @
     delivered reads (Suc i) n"
  by (simp add: delivered_def upt_conv_Cons)

lemma failures_step:
  "i < n \<Longrightarrow> failures reads i n =
     (case reads i of Inl err \<Rightarrow> [err] | Inr msg \<Rightarrow> []) @ failures reads (Suc i) n"
  by (simp add: failures_def upt_conv_Cons)

text \<open>
  The loop running from read \<open>i\<close> up to the first end of the stream, at read \<open>n\<close>:
  it leaves there, having done what is expected of it for the reads before. The
  induction is on the number of reads still to come.
\<close>

lemma Consume_loop_to_EOF:
  assumes "is_EOF (reads n)" and "\<forall>j. i \<le> j \<and> j < n \<longrightarrow> \<not> is_EOF (reads j)" and "i \<le> n"
  shows "Consume_loop handler reads i evs w =
           Some (evs @ loop_events reads i n @ [EvReadMessage n],
                 fold handler (delivered reads i n) w)"
  using assms
proof (induction "n - i" arbitrary: i evs w)
  case 0
  then have "i = n" by simp
  with \<open>is_EOF (reads n)\<close> show ?case
    by (subst Consume_loop.simps)
       (auto simp: is_EOF_def loop_events_def delivered_def split: sum.splits)
next
  case (Suc d)
  then have lt: "i < n" by simp
  then have notEOF: "\<not> is_EOF (reads i)" using Suc.prems by simp
  have IH: "Consume_loop handler reads (Suc i) evs' w' =
           Some (evs' @ loop_events reads (Suc i) n @ [EvReadMessage n],
                 fold handler (delivered reads (Suc i) n) w')" for evs' w'
    using Suc.hyps Suc.prems lt by (intro Suc.hyps(1)) auto
  show ?case
  proof (cases "reads i")
    case (Inl err)
    then have "\<not> errors_Is err EOF" using notEOF by (simp add: is_EOF_def)
    then show ?thesis
      by (subst Consume_loop.simps)
         (simp add: Inl IH loop_events_step [OF lt] delivered_step [OF lt])
  next
    case (Inr msg)
    then show ?thesis
      by (subst Consume_loop.simps)
         (simp add: IH loop_events_step [OF lt] delivered_step [OF lt])
  qed
qed

text \<open>
  Conversely the loop is left only at an end of the stream: by the induction rule of the
  fixed point, over the iterations of a run that returns.
\<close>

lemma Consume_loop_Some_EOF:
  assumes "Consume_loop handler reads i evs w = Some r"
  shows "\<exists>n\<ge>i. is_EOF (reads n)"
proof (rule Consume_loop.raw_induct
    [where P = "\<lambda>h rd i evs w r. \<exists>n\<ge>i. is_EOF (rd n)", OF _ assms])
  fix loop :: "(GenericMessage \<Rightarrow> 'a \<Rightarrow> 'a) \<Rightarrow> (nat \<Rightarrow> go_error + kafka_Message) \<Rightarrow> nat \<Rightarrow>
               consume_event list \<Rightarrow> 'a \<Rightarrow> (consume_event list \<times> 'a) option"
    and h rd i evs w r
  assume IH: "\<And>h rd i evs w r. loop h rd i evs w = Some r \<Longrightarrow> \<exists>n\<ge>i. is_EOF (rd n)"
    and step: "(case rd i of
        Inl err \<Rightarrow>
          (if errors_Is err EOF then Some (evs @ [EvReadMessage i], w)
           else loop h rd (Suc i)
                  (evs @ [EvReadMessage i,
                          EvWarn err (''Error when reading message: '' @ Error err)]) w)
      | Inr msg \<Rightarrow>
          loop h rd (Suc i)
            (evs @ [EvReadMessage i, EvTrace (msgValue msg) (msgKey msg),
                    EvHandler (NewMessageFromKafka msg)])
            (h (NewMessageFromKafka msg) w)) = Some r"
  show "\<exists>n\<ge>i. is_EOF (rd n)"
  proof (cases "is_EOF (rd i)")
    case True
    then show ?thesis by blast
  next
    case False
    with step obtain evs' w' where "loop h rd (Suc i) evs' w' = Some r"
      by (auto simp: is_EOF_def split: sum.splits if_splits)
    from IH [OF this] obtain n where "Suc i \<le> n" "is_EOF (rd n)" by blast
    then show ?thesis by (intro exI [of _ n]) simp
  qed
qed

lemma Consume_loop_never:
  "(\<And>j. \<not> is_EOF (reads j)) \<Longrightarrow> Consume_loop handler reads i evs w = None"
  using Consume_loop_Some_EOF [of handler reads i evs w]
  by (cases "Consume_loop handler reads i evs w") auto

lemma first_EOF_exists:
  fixes reads :: "nat \<Rightarrow> go_error + kafka_Message"
  assumes "is_EOF (reads n)"
  shows "\<exists>m\<le>n. is_EOF (reads m) \<and> (\<forall>j<m. \<not> is_EOF (reads j))"
proof -
  define m where "m = (LEAST k. is_EOF (reads k))"
  have "is_EOF (reads m)"
    unfolding m_def using assms by (rule LeastI [of "\<lambda>k. is_EOF (reads k)" n])
  moreover have "m \<le> n"
    unfolding m_def using assms by (rule Least_le [of "\<lambda>k. is_EOF (reads k)" n])
  moreover have "\<not> is_EOF (reads j)" if "j < m" for j
    using that not_less_Least [of j "\<lambda>k. is_EOF (reads k)"] unfolding m_def by simp
  ultimately show ?thesis by blast
qed

text \<open>The projections of the expected events.\<close>

lemma handled_append: "handled (xs @ ys) = handled xs @ handled ys"
  by (induction xs rule: handled.induct) simp_all

lemma warned_append: "warned (xs @ ys) = warned xs @ warned ys"
  by (induction xs rule: warned.induct) simp_all

lemma closes_append: "closes (xs @ ys) = closes xs + closes ys"
  by (simp add: closes_def)

lemma handled_loop_events: "handled (loop_events reads i n) = delivered reads i n"
proof (induction "n - i" arbitrary: i)
  case 0
  then show ?case by (simp add: loop_events_def delivered_def)
next
  case (Suc d)
  then have lt: "i < n" by simp
  have "handled (loop_events reads (Suc i) n) = delivered reads (Suc i) n"
    using Suc by (intro Suc.hyps(1)) simp
  then show ?case
    by (cases "reads i")
       (simp_all add: loop_events_step [OF lt] delivered_step [OF lt] handled_append)
qed

lemma warned_loop_events: "warned (loop_events reads i n) = failures reads i n"
proof (induction "n - i" arbitrary: i)
  case 0
  then show ?case by (simp add: loop_events_def failures_def)
next
  case (Suc d)
  then have lt: "i < n" by simp
  have "warned (loop_events reads (Suc i) n) = failures reads (Suc i) n"
    using Suc by (intro Suc.hyps(1)) simp
  then show ?case
    by (cases "reads i")
       (simp_all add: loop_events_step [OF lt] failures_step [OF lt] warned_append)
qed

lemma closes_loop_events: "closes (loop_events reads i n) = 0"
proof (induction "n - i" arbitrary: i)
  case 0
  then show ?case by (simp add: loop_events_def closes_def)
next
  case (Suc d)
  then have lt: "i < n" by simp
  have "closes (loop_events reads (Suc i) n) = 0"
    using Suc by (intro Suc.hyps(1)) simp
  then show ?case
    by (cases "reads i")
       (simp_all add: loop_events_step [OF lt] closes_append, simp_all add: closes_def)
qed

text \<open>The whole of \<open>Consume\<close> when the first end of the stream is read number \<open>n\<close>.\<close>

lemma Consume_first_EOF:
  assumes "is_EOF (reads n)" and "\<forall>j<n. \<not> is_EOF (reads j)"
  shows "Consume cfg b topic handler reads w =
           Some (EvNewReader (NewReader cfg b topic) # loop_events reads 0 n @
                   [EvReadMessage n, EvReaderClose],
                 fold handler (delivered reads 0 n) w)"
proof -
  have "Consume_loop handler reads 0 [EvNewReader (NewReader cfg b topic)] w =
          Some ([EvNewReader (NewReader cfg b topic)] @ loop_events reads 0 n @ [EvReadMessage n],
                fold handler (delivered reads 0 n) w)"
    using assms by (intro Consume_loop_to_EOF) auto
  then show ?thesis by (simp add: Consume_def)
qed

lemma closes_run:
  "closes (EvNewReader r # loop_events reads 0 n @ [EvReadMessage n, EvReaderClose]) = 1"
  using closes_loop_events [of reads 0 n]
  by (simp add: closes_def)

text \<open>The example reader: its reads before the end of the stream.\<close>

lemma example_reads_EOF: "is_EOF (example_reads 3)"
  by (simp add: example_reads_def is_EOF_def)

lemma example_reads_before: "\<forall>j<3. \<not> is_EOF (example_reads j)"
  by (simp add: example_reads_def is_EOF_def KafkaMessage_def)

lemma upt_0_3: "[0..<3] = [0, 1, 2]"
  by (simp add: upt_rec)

lemma delivered_example: "delivered example_reads 0 3 = [order1, order2]"
  by (simp add: delivered_def upt_0_3 example_reads_def NewMessageFromKafka_def
      KafkaMessage_def zero_Message_def order1_def order2_def)

lemma failures_example: "failures example_reads 0 3 = [ErrorString ''i/o timeout'']"
  by (simp add: failures_def upt_0_3 example_reads_def)

text \<open>
  C6. Let read number \<open>n\<close> be the first that returns the end of the stream. Then
  \<open>Consume\<close> returns, and its events are: the reader made; for each read before \<open>n\<close>,
  in order, the read followed by its warning when it failed and by the trace line and the
  handler call when it succeeded, each before the next read; read \<open>n\<close>; the reader
  closed. So the handler was called exactly once for each successful read before
  \<open>n\<close>, in the order read, failed reads were logged and did not end the loop, and the
  state of the application is the handler folded over the delivered messages.
\<close>

theorem Consume_delivers_in_order:
  assumes "is_EOF (reads n)" and "\<forall>j<n. \<not> is_EOF (reads j)"
  shows "\<exists>evs w'. Consume cfg b topic handler reads w = Some (evs, w')
           \<and> evs = EvNewReader (NewReader cfg b topic) # loop_events reads 0 n @
                     [EvReadMessage n, EvReaderClose]
           \<and> handled evs = delivered reads 0 n
           \<and> warned evs = failures reads 0 n
           \<and> w' = fold handler (delivered reads 0 n) w"
  using Consume_first_EOF [OF assms, of cfg b topic handler w]
  by (simp add: handled_append handled_loop_events warned_append warned_loop_events)

text \<open>
  The example reader: the timeout between the two orders is logged, and both orders
  reach the handler, which has counted their three bytes.
\<close>

theorem Consume_delivers_in_order_witness:
  "is_EOF (example_reads 3) \<and> \<not> is_EOF (example_reads 0) \<and> \<not> is_EOF (example_reads 1)
   \<and> \<not> is_EOF (example_reads 2)
   \<and> (\<exists>evs. Consume example_config example_broker ''orders'' count_bytes example_reads 0 =
                Some (evs, 3)
            \<and> handled evs = [order1, order2]
            \<and> warned evs = [ErrorString ''i/o timeout''])"
  using example_reads_EOF example_reads_before
    Consume_delivers_in_order [OF example_reads_EOF example_reads_before,
      of example_config example_broker "''orders''" count_bytes 0]
  by (simp add: delivered_example failures_example count_bytes_def order1_def order2_def)

text \<open>
  C8. When a read returns the end of the stream, \<open>Consume\<close> returns: the first such
  read, number \<open>m\<close>, is followed by the closing of the reader and by nothing else, so
  the handler calls are those for the reads before \<open>m\<close> and the reader was not closed
  before. And whenever \<open>Consume\<close> returns, the reader was closed exactly once, as the
  last thing done.
\<close>

theorem Consume_closes_reader_once:
  "(is_EOF (reads n) \<longrightarrow>
      (\<exists>m\<le>n. \<exists>evs w'.
          Consume cfg b topic handler reads w = Some (evs @ [EvReadMessage m, EvReaderClose], w')
          \<and> is_EOF (reads m) \<and> handled evs = delivered reads 0 m \<and> closes evs = 0))
   \<and> (Consume cfg b topic handler reads w = Some (evs', w'') \<longrightarrow>
        closes evs' = 1 \<and> last evs' = EvReaderClose)"
proof (intro conjI impI)
  assume "is_EOF (reads n)"
  from first_EOF_exists [of reads, OF this]
  obtain m where m: "m \<le> n" "is_EOF (reads m)" "\<forall>j<m. \<not> is_EOF (reads j)" by blast
  let ?evs = "EvNewReader (NewReader cfg b topic) # loop_events reads 0 m"
  have "Consume cfg b topic handler reads w =
          Some (?evs @ [EvReadMessage m, EvReaderClose], fold handler (delivered reads 0 m) w)"
    using Consume_first_EOF [OF m(2,3), of cfg b topic handler w] by simp
  moreover have "handled ?evs = delivered reads 0 m"
    by (simp add: handled_loop_events)
  moreover have "closes ?evs = 0"
    using closes_loop_events [of reads 0 m] by (simp add: closes_def)
  ultimately show "\<exists>m\<le>n. \<exists>evs w'.
          Consume cfg b topic handler reads w = Some (evs @ [EvReadMessage m, EvReaderClose], w')
          \<and> is_EOF (reads m) \<and> handled evs = delivered reads 0 m \<and> closes evs = 0"
    using m(1,2) by blast
next
  assume ret: "Consume cfg b topic handler reads w = Some (evs', w'')"
  then obtain r where
    "Consume_loop handler reads 0 [EvNewReader (NewReader cfg b topic)] w = Some r"
    by (auto simp: Consume_def split: option.splits)
  from Consume_loop_Some_EOF [OF this] obtain n where "is_EOF (reads n)" by blast
  from first_EOF_exists [of reads, OF this]
  obtain m where m: "is_EOF (reads m)" "\<forall>j<m. \<not> is_EOF (reads j)" by blast
  have evs': "evs' = EvNewReader (NewReader cfg b topic) # loop_events reads 0 m @
                   [EvReadMessage m, EvReaderClose]"
    using Consume_first_EOF [OF m, of cfg b topic handler w] ret by simp
  show "closes evs' = 1" unfolding evs' by (rule closes_run)
  show "last evs' = EvReaderClose" unfolding evs' by simp
qed

text \<open>The example reader, which answers its sixth read, like the three before, with the end.\<close>

theorem Consume_closes_reader_once_witness:
  "is_EOF (example_reads 5)
   \<and> (\<exists>evs w. Consume example_config example_broker ''orders'' count_bytes example_reads 0 =
                  Some (evs, w) \<and> closes evs = 1 \<and> last evs = EvReaderClose)"
proof -
  have h: "is_EOF (example_reads 5)" by (simp add: example_reads_def is_EOF_def)
  obtain evs w where ret:
    "Consume example_config example_broker ''orders'' count_bytes example_reads 0 = Some (evs, w)"
    using h Consume_closes_reader_once
      [of example_reads 5 example_config example_broker "''orders''" count_bytes 0]
    by blast
  then have "closes evs = 1 \<and> last evs = EvReaderClose"
    using Consume_closes_reader_once
      [of example_reads 5 example_config example_broker "''orders''" count_bytes 0 evs w]
    by blast
  with h ret show ?thesis by blast
qed

text \<open>
  C2 (the code departs from the claim). The claim: a read that returns the cancellation
  error of the context ends the loop as the end of the stream does, with no further
  handler call and with the reader closed. The loop compares the error with \<open>io.EOF\<close>
  only. Once the context is cancelled, from read \<open>k\<close> on, every read returns
  \<open>context.Canceled\<close>; each one is logged as a warning and followed by the next read,
  and \<open>Consume\<close> never returns, so that its deferred \<open>Close\<close> never runs.
\<close>

theorem Consume_cancellation_keeps_reading:
  assumes "\<forall>j\<ge>k. reads j = Inl ContextCanceled" and "\<forall>j<k. \<not> is_EOF (reads j)"
  shows "Consume cfg b topic handler reads w = None
         \<and> (\<forall>j\<ge>k. \<forall>evs w'. Consume_loop handler reads j evs w' =
               Consume_loop handler reads (Suc j)
                 (evs @ [EvReadMessage j,
                         EvWarn ContextCanceled ''Error when reading message: context canceled''])
                 w')"
proof (intro conjI allI impI)
  have "\<not> is_EOF (reads j)" for j
    using assms by (cases "j < k") (auto simp: is_EOF_def)
  then have "Consume_loop handler reads 0 [EvNewReader (NewReader cfg b topic)] w = None"
    by (rule Consume_loop_never)
  then show "Consume cfg b topic handler reads w = None" by (simp add: Consume_def)
next
  fix j evs w'
  assume "k \<le> j"
  then have "reads j = Inl ContextCanceled" using assms(1) by simp
  then show "Consume_loop handler reads j evs w' =
               Consume_loop handler reads (Suc j)
                 (evs @ [EvReadMessage j,
                         EvWarn ContextCanceled ''Error when reading message: context canceled''])
                 w'"
    by (subst Consume_loop.simps) simp
qed

text \<open>The reader whose context is cancelled after its first message.\<close>

theorem Consume_cancellation_keeps_reading_witness:
  "cancelled_reads 1 = Inl ContextCanceled
   \<and> Consume example_config example_broker ''orders'' count_bytes cancelled_reads 0 = None
   \<and> Consume_loop count_bytes cancelled_reads 1 [] 1 =
       Consume_loop count_bytes cancelled_reads 2
         [EvReadMessage 1,
          EvWarn ContextCanceled ''Error when reading message: context canceled''] 1"
proof -
  have h1: "\<forall>j\<ge>1. cancelled_reads j = Inl ContextCanceled"
    by (simp add: cancelled_reads_def)
  have h2: "\<forall>j<1. \<not> is_EOF (cancelled_reads j)"
    by (simp add: cancelled_reads_def is_EOF_def)
  note inst = Consume_cancellation_keeps_reading [OF h1 h2,
        of example_config example_broker "''orders''" count_bytes 0]
  have never: "Consume example_config example_broker ''orders'' count_bytes cancelled_reads 0 = None"
    using inst by (rule conjunct1)
  have "Consume_loop count_bytes cancelled_reads 1 [] 1 =
       Consume_loop count_bytes cancelled_reads (Suc 1)
         ([] @ [EvReadMessage 1,
          EvWarn ContextCanceled ''Error when reading message: context canceled'']) 1"
    by (rule inst [THEN conjunct2, rule_format, OF le_refl])
  then have step: "Consume_loop count_bytes cancelled_reads 1 [] 1 =
       Consume_loop count_bytes cancelled_reads 2
         [EvReadMessage 1,
          EvWarn ContextCanceled ''Error when reading message: context canceled''] 1"
    by (simp only: append_Nil Suc_1)
  have "cancelled_reads 1 = Inl ContextCanceled" by (simp add: cancelled_reads_def)
  then show ?thesis using never step by (intro conjI)
qed

end
